theory Spec2Isabelle
  imports Main "HOL-Library.Char_ord" "HOL-Library.List_Lexorder" "HOL-Library.Multiset"
begin

section \<open>JavaScript strings\<close>

text \<open>
  Strings are lists of code units; the model covers code units below 256 (\<open>char\<close>).
  \<open>natToString\<close> is \<open>Number.prototype.toString\<close> on a non-negative integer,
  \<open>parseInt10\<close> is \<open>parseInt(s, 10)\<close> on a string of decimal digits. JavaScript numbers
  are doubles: both are exact up to \<open>2^53\<close>, which is as far as the model follows them.
\<close>

definition digitChar :: "nat \<Rightarrow> char" where
  "digitChar n = ''0123456789'' ! (n mod 10)"

function natToString :: "nat \<Rightarrow> string" where
  "natToString n = (if n < 10 then [digitChar n] else natToString (n div 10) @ [digitChar n])"
  by pat_completeness auto
termination
  by (relation "measure id") auto

declare natToString.simps [simp del]

definition intToString :: "int \<Rightarrow> string" where
  "intToString i = (if i < 0 then CHR ''-'' # natToString (nat (- i)) else natToString (nat i))"

definition isDigit :: "char \<Rightarrow> bool" where
  "isDigit c = (c \<in> set ''0123456789'')"

definition digitVal :: "char \<Rightarrow> nat" where
  "digitVal c = of_char c - 48"

definition parseInt10 :: "string \<Rightarrow> nat" where
  "parseInt10 s = foldl (\<lambda>acc c. 10 * acc + digitVal c) 0 s"

text \<open>\<open>String.prototype.startsWith\<close> and \<open>substring(n)\<close>.\<close>

fun startsWith :: "string \<Rightarrow> string \<Rightarrow> bool" where
  "startsWith s [] = True"
| "startsWith [] (p # ps) = False"
| "startsWith (c # cs) (p # ps) = (c = p \<and> startsWith cs ps)"

definition substring :: "string \<Rightarrow> nat \<Rightarrow> string" where
  "substring s n = drop n s"

text \<open>
  \<open>String.prototype.trim\<close>: the white space and line terminators of ECMAScript that
  are code units below 256 (TAB, LF, VT, FF, CR, SP, NBSP).
\<close>

definition isJsSpace :: "char \<Rightarrow> bool" where
  "isJsSpace c = (c \<in> set [CHR 0x09, CHR 0x0A, CHR 0x0B, CHR 0x0C, CHR 0x0D, CHR 0x20, CHR 0xA0])"

definition trim :: "string \<Rightarrow> string" where
  "trim s = rev (dropWhile isJsSpace (rev (dropWhile isJsSpace s)))"

text \<open>
  \<open>s.split(sep)\<close> for a one-character separator: the pieces between the separators,
  the current piece accumulated in reverse. The empty string splits into one empty piece.
\<close>

fun splitAcc :: "char \<Rightarrow> string \<Rightarrow> string \<Rightarrow> string list" where
  "splitAcc sep cur [] = [rev cur]"
| "splitAcc sep cur (c # cs) =
     (if c = sep then rev cur # splitAcc sep [] cs else splitAcc sep (c # cur) cs)"

definition split :: "string \<Rightarrow> char \<Rightarrow> string list" where
  "split s sep = splitAcc sep [] s"

text \<open>\<open>xs.join(sep)\<close>.\<close>

fun join :: "string \<Rightarrow> string list \<Rightarrow> string" where
  "join sep [] = []"
| "join sep [x] = x"
| "join sep (x # y # ys) = x @ sep @ join sep (y # ys)"

section \<open>JSON values and the canonical serialisation (utils/stable-stringify)\<close>

text \<open>
  A request body is parsed JSON. An object is the list of its properties in insertion
  order; numbers are the integers. \<open>JUndefined\<close> is the value of a missing property.
\<close>

datatype json =
    JNull
  | JUndefined
  | JBool bool
  | JNum int
  | JStr string
  | JArr "json list"
  | JObj "(string \<times> json) list"

text \<open>\<open>obj[key]\<close>\<close>

definition objGet :: "(string \<times> json) list \<Rightarrow> string \<Rightarrow> json" where
  "objGet kvs key = (case map_of kvs key of Some v \<Rightarrow> v | None \<Rightarrow> JUndefined)"

text \<open>\<open>JSON.stringify\<close> on a string: quotes, with the escapes of ECMAScript's QuoteJSONString.\<close>

definition hexDigit :: "nat \<Rightarrow> char" where
  "hexDigit n = ''0123456789abcdef'' ! (n mod 16)"

definition quoteChar :: "char \<Rightarrow> string" where
  "quoteChar c =
     (if c = CHR 0x22 then [CHR 0x5C, CHR 0x22]
      else if c = CHR 0x5C then [CHR 0x5C, CHR 0x5C]
      else if c = CHR 0x08 then [CHR 0x5C, CHR ''b'']
      else if c = CHR 0x0C then [CHR 0x5C, CHR ''f'']
      else if c = CHR 0x0A then [CHR 0x5C, CHR ''n'']
      else if c = CHR 0x0D then [CHR 0x5C, CHR ''r'']
      else if c = CHR 0x09 then [CHR 0x5C, CHR ''t'']
      else if (of_char c :: nat) < 32
        then [CHR 0x5C, CHR ''u'', CHR ''0'', CHR ''0'', hexDigit (of_char c div 16), hexDigit (of_char c)]
      else [c])"

definition quoteJSONString :: "string \<Rightarrow> string" where
  "quoteJSONString s = [CHR 0x22] @ concat (map quoteChar s) @ [CHR 0x22]"

text \<open>
  \<open>stableStringify\<close>: \<open>JSON.stringify\<close> on a boolean, a number or a string; the items
  of an array in order; the properties of an object in the order of \<open>Object.keys(obj).sort()\<close>,
  which compares strings by code unit.
\<close>

lemma size_objGet: "size (objGet kvs key) < Suc (size_list (size_prod (\<lambda>_. 0) size) kvs)"
  by (induction kvs) (auto simp: objGet_def)

function stableStringify :: "json \<Rightarrow> string" where
  "stableStringify JNull = ''null''"
| "stableStringify JUndefined = ''undefined''"
| "stableStringify (JBool b) = (if b then ''true'' else ''false'')"
| "stableStringify (JNum n) = intToString n"
| "stableStringify (JStr s) = quoteJSONString s"
| "stableStringify (JArr items) = ''['' @ join '','' (map stableStringify items) @ '']''"
| "stableStringify (JObj kvs) =
     ''{'' @ join '',''
        (map (\<lambda>key. quoteJSONString key @ '':'' @ stableStringify (objGet kvs key))
             (sort (map fst kvs))) @ ''}''"
  by pat_completeness auto
termination
proof (relation "measure size")
  show "wf (measure size)" by simp
next
  fix items :: "json list" and x
  assume "x \<in> set items"
  then have "size x < Suc (size_list size items)"
    by (induction items) auto
  then show "(x, JArr items) \<in> measure size" by simp
next
  fix kvs :: "(string \<times> json) list" and x
  show "(objGet kvs x, JObj kvs) \<in> measure size"
    using size_objGet [of kvs x] by simp
qed

section \<open>Requests and the fingerprint (middleware/idempotency, computeFingerprint)\<close>

text \<open>
  \<open>ValidationRequest\<close> of types.ts; \<open>options\<close> and \<open>context\<close> are optional.
  The fields carry the prefix \<open>req\<close> (\<open>type\<close> and \<open>context\<close> are reserved words).
\<close>

record ValidationRequest =
  reqType :: string
  reqContent :: string
  reqOptions :: "json option"
  reqContext :: "json option"

text \<open>\<open>x || {}\<close>: the falsy values of JavaScript give the empty object.\<close>

fun jsFalsy :: "json \<Rightarrow> bool" where
  "jsFalsy JNull = True"
| "jsFalsy JUndefined = True"
| "jsFalsy (JBool b) = (\<not> b)"
| "jsFalsy (JNum n) = (n = 0)"
| "jsFalsy (JStr s) = (s = [])"
| "jsFalsy _ = False"

definition orEmptyObject :: "json option \<Rightarrow> json" where
  "orEmptyObject x = (case x of None \<Rightarrow> JObj [] | Some v \<Rightarrow> (if jsFalsy v then JObj [] else v))"

text \<open>
  \<open>sha256\<close> of utils/crypto is the platform's digest in hexadecimal; it is the
  parameter \<open>sha256\<close> of everything that hashes.
\<close>

definition computeFingerprint :: "(string \<Rightarrow> string) \<Rightarrow> ValidationRequest \<Rightarrow> string" where
  "computeFingerprint sha256 request =
     (let contentHash = sha256 (reqContent request);
          optionsStr = stableStringify (orEmptyObject (reqOptions request));
          contextStr = stableStringify (orEmptyObject (reqContext request));
          composite = reqType request @ contentHash @ optionsStr @ contextStr
      in sha256 composite)"

section \<open>The validation engine (validators/csv-ga4)\<close>

subsection \<open>Findings and results (types.ts)\<close>

datatype level = LevelError | LevelWarning

text \<open>
  The \<open>pointer\<close> of a finding, one constructor per shape the engine builds. A value
  that is \<open>undefined\<close> in the source (a cell beyond the end of its row) is \<open>None\<close>.
\<close>

datatype pointer =
    PointerMissing "string list"
  | PointerMaxRows int nat
  | PointerRow nat
  | PointerRowValue nat "string option"
  | PointerRowDate nat string

record ValidationFinding =
  level :: level
  code :: string
  message :: string
  pointer :: "pointer option"

record Summary =
  valid :: bool
  issues :: nat
  warnings :: nat
  rows :: nat

record Normalized =
  detectedHeaders :: "string list"
  dateRange :: "(string \<times> string) option"

record ValidationSuccess =
  summary :: Summary
  findings :: "ValidationFinding list"
  normalized :: Normalized

text \<open>
  \<open>GA4ValidationOptions\<close>, every field optional; \<open>maxRows\<close> is an integer.
\<close>

record GA4ValidationOptions =
  allowPageviewsMissing :: "bool option"
  requireSortedByDateAsc :: "bool option"
  allowDuplicateDates :: "bool option"
  maxRows :: "int option"

definition truthy :: "bool option \<Rightarrow> bool" where
  "truthy b = (b = Some True)"

definition DEFAULT_MAX_ROWS :: int where
  "DEFAULT_MAX_ROWS = 100000"

text \<open>\<open>options.maxRows ?? DEFAULT_MAX_ROWS\<close>\<close>

definition maxRowsOrDefault :: "GA4ValidationOptions \<Rightarrow> int" where
  "maxRowsOrDefault opts = (case maxRows opts of None \<Rightarrow> DEFAULT_MAX_ROWS | Some n \<Rightarrow> n)"

text \<open>What the engine's own code and the platform functions it calls can throw.\<close>

datatype jsError =
    ContentPrefixError
  | InvalidCharacterError
  | RangeError
  | TypeError

definition dq :: string where
  "dq = [CHR 0x22]"

text \<open>A template hole \<open>${x}\<close> whose value may be \<open>undefined\<close>.\<close>

definition showCell :: "string option \<Rightarrow> string" where
  "showCell v = (case v of None \<Rightarrow> ''undefined'' | Some s \<Rightarrow> s)"

subsection \<open>decodeContent and parseCSV\<close>

text \<open>
  \<open>atobUtf8 s\<close> stands for \<open>new TextDecoder().decode(bytes of atob(s))\<close>, a function of
  the platform: \<open>None\<close> when \<open>atob\<close> throws (the data is not base64).
\<close>

definition decodeContent :: "(string \<Rightarrow> string option) \<Rightarrow> string \<Rightarrow> jsError + string" where
  "decodeContent atobUtf8 c =
     (if startsWith c ''base64:'' then
        (case atobUtf8 (substring c 7) of
           None \<Rightarrow> Inl InvalidCharacterError
         | Some decoded \<Rightarrow> Inr decoded)
      else if startsWith c ''text:'' then Inr (substring c 5)
      else Inl ContentPrefixError)"

definition parseCSV :: "string \<Rightarrow> string list list" where
  "parseCSV csvText =
     (let lines = split (trim csvText) (CHR 0x0A)
      in map (\<lambda>line. map trim (split line (CHR '',''))) lines)"

subsection \<open>isValidDate\<close>

text \<open>The regular expression \<open>/^\d{4}-\d{2}-\d{2}$/\<close>.\<close>

fun matchesDateRegex :: "string \<Rightarrow> bool" where
  "matchesDateRegex [y1, y2, y3, y4, s1, m1, m2, s2, d1, d2] =
     (isDigit y1 \<and> isDigit y2 \<and> isDigit y3 \<and> isDigit y4 \<and> s1 = CHR ''-'' \<and>
      isDigit m1 \<and> isDigit m2 \<and> s2 = CHR ''-'' \<and> isDigit d1 \<and> isDigit d2)"
| "matchesDateRegex _ = False"

definition isLeapYear :: "nat \<Rightarrow> bool" where
  "isLeapYear y = (y mod 4 = 0 \<and> (y mod 100 \<noteq> 0 \<or> y mod 400 = 0))"

definition daysInMonth :: "nat \<Rightarrow> nat \<Rightarrow> nat" where
  "daysInMonth y m =
     (if m = 2 then (if isLeapYear y then 29 else 28)
      else if m \<in> {4, 6, 9, 11} then 30 else 31)"

text \<open>
  \<open>new Date(s)\<close> for \<open>s\<close> of the form YYYY-MM-DD, as the runtime of the service (V8)
  parses it: a month outside 1..12 or a day outside 1..31 is an Invalid Date (\<open>None\<close>);
  a day up to 31 beyond the end of its month rolls over into the next month. The value is
  the UTC calendar date (year, month, day) of the resulting instant, at midnight.
\<close>

definition newDate :: "string \<Rightarrow> (nat \<times> nat \<times> nat) option" where
  "newDate s =
     (let y = parseInt10 (take 4 s); m = parseInt10 (take 2 (drop 5 s)); d = parseInt10 (drop 8 s)
      in if 1 \<le> m \<and> m \<le> 12 \<and> 1 \<le> d \<and> d \<le> 31
         then Some (if d \<le> daysInMonth y m then (y, m, d) else (y, m + 1, d - daysInMonth y m))
         else None)"

definition padZero :: "nat \<Rightarrow> nat \<Rightarrow> string" where
  "padZero w n = replicate (w - length (natToString n)) (CHR ''0'') @ natToString n"

text \<open>\<open>Date.prototype.toISOString\<close>: a RangeError on an Invalid Date.\<close>

definition toISOString :: "(nat \<times> nat \<times> nat) option \<Rightarrow> jsError + string" where
  "toISOString date =
     (case date of
        None \<Rightarrow> Inl RangeError
      | Some (y, m, d) \<Rightarrow>
          Inr (padZero 4 y @ ''-'' @ padZero 2 m @ ''-'' @ padZero 2 d @ ''T00:00:00.000Z''))"

text \<open>\<open>regex.test(undefined)\<close> tests the string \<open>undefined\<close>, which does not match.\<close>

definition isValidDate :: "string option \<Rightarrow> jsError + bool" where
  "isValidDate dateStr =
     (case dateStr of
        None \<Rightarrow> Inr False
      | Some s \<Rightarrow>
          if \<not> matchesDateRegex s then Inr False
          else (case toISOString (newDate s) of
                  Inl e \<Rightarrow> Inl e
                | Inr isoStr \<Rightarrow> Inr (startsWith isoStr s)))"

subsection \<open>isNonNegativeInteger\<close>

text \<open>The regular expression \<open>/^\d+$/\<close>.\<close>

definition matchesDigitsRegex :: "string \<Rightarrow> bool" where
  "matchesDigitsRegex s = (s \<noteq> [] \<and> list_all isDigit s)"

definition isNonNegativeInteger :: "string option \<Rightarrow> bool" where
  "isNonNegativeInteger v =
     (case v of
        None \<Rightarrow> False
      | Some s \<Rightarrow>
          if \<not> matchesDigitsRegex s then False
          else (let num = parseInt10 s in 0 \<le> num \<and> natToString num = s))"

subsection \<open>validateGA4CSV\<close>

text \<open>\<open>headers.indexOf(h)\<close>, \<open>-1\<close> when absent, and \<open>row[i]\<close>, \<open>undefined\<close> out of range.\<close>

fun indexOfFrom :: "int \<Rightarrow> string list \<Rightarrow> string \<Rightarrow> int" where
  "indexOfFrom i [] h = - 1"
| "indexOfFrom i (x # xs) h = (if x = h then i else indexOfFrom (i + 1) xs h)"

definition indexOf :: "string list \<Rightarrow> string \<Rightarrow> int" where
  "indexOf hs h = indexOfFrom 0 hs h"

definition rowAt :: "string list \<Rightarrow> int \<Rightarrow> string option" where
  "rowAt row i = (if 0 \<le> i \<and> nat i < length row then Some (row ! nat i) else None)"

definition requiredHeaders :: "string list" where
  "requiredHeaders = [''date'', ''sessions'', ''users'']"

definition mkFinding :: "level \<Rightarrow> string \<Rightarrow> string \<Rightarrow> pointer option \<Rightarrow> ValidationFinding" where
  "mkFinding l c m p = \<lparr>level = l, code = c, message = m, pointer = p\<rparr>"

text \<open>
  The mutable locals of the row loop: the findings so far, \<open>dates\<close> and \<open>seenDates\<close>.
\<close>

record LoopState =
  lsFindings :: "ValidationFinding list"
  lsDates :: "string list"
  lsSeenDates :: "string list"

definition pushFinding :: "ValidationFinding \<Rightarrow> LoopState \<Rightarrow> LoopState" where
  "pushFinding f st = st\<lparr>lsFindings := lsFindings st @ [f]\<rparr>"

text \<open>The date step of the callback of \<open>dataRows.forEach\<close>; \<open>isValidDate\<close> may throw.\<close>

definition checkDate :: "GA4ValidationOptions \<Rightarrow> nat \<Rightarrow> string option \<Rightarrow> LoopState \<Rightarrow> jsError + LoopState" where
  "checkDate opts rowIndex date st =
     (case isValidDate date of
        Inl e \<Rightarrow> Inl e
      | Inr False \<Rightarrow>
          Inr (pushFinding (mkFinding LevelError ''INVALID_DATE_FORMAT''
                 (''Row '' @ natToString rowIndex @ '': Invalid date format '' @ dq @ showCell date @ dq
                    @ ''. Expected YYYY-MM-DD'')
                 (Some (PointerRowValue rowIndex date))) st)
      | Inr True \<Rightarrow>
          (let d = showCell date; st1 = st\<lparr>lsDates := lsDates st @ [d]\<rparr>
           in if d \<in> set (lsSeenDates st1) then
                (if \<not> truthy (allowDuplicateDates opts) then
                   Inr (pushFinding (mkFinding LevelError ''DUPLICATE_DATE''
                          (''Row '' @ natToString rowIndex @ '': Duplicate date '' @ dq @ d @ dq)
                          (Some (PointerRowDate rowIndex d))) st1)
                 else Inr st1)
              else Inr (st1\<lparr>lsSeenDates := lsSeenDates st1 @ [d]\<rparr>)))"

text \<open>The check of one numeric column: \<open>sessions\<close>, \<open>users\<close> or \<open>pageviews\<close>.\<close>

definition checkNumeric :: "string \<Rightarrow> string \<Rightarrow> nat \<Rightarrow> string option \<Rightarrow> LoopState \<Rightarrow> LoopState" where
  "checkNumeric codeName field rowIndex v st =
     (if \<not> isNonNegativeInteger v then
        pushFinding (mkFinding LevelError codeName
          (''Row '' @ natToString rowIndex @ '': '' @ dq @ field @ dq
             @ '' must be a non-negative integer, got '' @ dq @ showCell v @ dq)
          (Some (PointerRowValue rowIndex v))) st
      else st)"

definition checkPageviews :: "int \<Rightarrow> nat \<Rightarrow> string list \<Rightarrow> LoopState \<Rightarrow> LoopState" where
  "checkPageviews pageviewsIdx rowIndex row st =
     (if 0 \<le> pageviewsIdx \<and> rowAt row pageviewsIdx \<noteq> None \<and> rowAt row pageviewsIdx \<noteq> Some []
      then checkNumeric ''INVALID_PAGEVIEWS_VALUE'' ''pageviews'' rowIndex (rowAt row pageviewsIdx) st
      else st)"

text \<open>
  The callback of \<open>dataRows.forEach((row, idx) => ...)\<close>. The column indices come from
  the header row: \<open>(dateIdx, sessionsIdx, usersIdx, pageviewsIdx)\<close>.
\<close>

definition rowBody ::
  "GA4ValidationOptions \<Rightarrow> int \<times> int \<times> int \<times> int \<Rightarrow> LoopState \<Rightarrow> string list \<Rightarrow> nat \<Rightarrow> jsError + LoopState" where
  "rowBody opts idxs st row idx =
     (case idxs of (dateIdx, sessionsIdx, usersIdx, pageviewsIdx) \<Rightarrow>
       (let rowIndex = idx + 2 in
        if length row < length requiredHeaders then
          Inr (pushFinding (mkFinding LevelError ''INVALID_ROW_FORMAT''
                 (''Row '' @ natToString rowIndex @ '' has insufficient columns'')
                 (Some (PointerRow rowIndex))) st)
        else
          (case checkDate opts rowIndex (rowAt row dateIdx) st of
             Inl e \<Rightarrow> Inl e
           | Inr st1 \<Rightarrow>
               (let st2 = checkNumeric ''INVALID_SESSIONS_VALUE'' ''sessions'' rowIndex (rowAt row sessionsIdx) st1;
                    st3 = checkNumeric ''INVALID_USERS_VALUE'' ''users'' rowIndex (rowAt row usersIdx) st2
                in Inr (checkPageviews pageviewsIdx rowIndex row st3)))))"

text \<open>\<open>forEach\<close>: the rows in order, from index \<open>idx\<close>; an exception ends the loop.\<close>

fun forEachRow ::
  "GA4ValidationOptions \<Rightarrow> int \<times> int \<times> int \<times> int \<Rightarrow> LoopState \<Rightarrow> string list list \<Rightarrow> nat \<Rightarrow> jsError + LoopState" where
  "forEachRow opts idxs st [] idx = Inr st"
| "forEachRow opts idxs st (row # rest) idx =
     (case rowBody opts idxs st row idx of
        Inl e \<Rightarrow> Inl e
      | Inr st' \<Rightarrow> forEachRow opts idxs st' rest (idx + 1))"

definition countLevel :: "level \<Rightarrow> ValidationFinding list \<Rightarrow> nat" where
  "countLevel l fs = length (filter (\<lambda>f. level f = l) fs)"

definition buildErrorResponse :: "ValidationFinding list \<Rightarrow> nat \<Rightarrow> ValidationSuccess" where
  "buildErrorResponse fs rowCount =
     \<lparr>summary = \<lparr>valid = False, issues = countLevel LevelError fs,
                  warnings = countLevel LevelWarning fs, rows = rowCount\<rparr>,
      findings = fs,
      normalized = \<lparr>detectedHeaders = [], dateRange = None\<rparr>\<rparr>"

text \<open>
  The sort check: \<open>[...dates].sort()\<close> orders strings by code unit, and \<open>some\<close> looks
  for a position where the two lists differ.
\<close>

definition isNotSorted :: "string list \<Rightarrow> bool" where
  "isNotSorted ds = list_ex (\<lambda>(d, s). d \<noteq> s) (zip ds (sort ds))"

definition sortedCheck :: "GA4ValidationOptions \<Rightarrow> LoopState \<Rightarrow> LoopState" where
  "sortedCheck opts st =
     (if truthy (requireSortedByDateAsc opts) \<and> 0 < length (lsDates st) \<and> isNotSorted (lsDates st)
      then pushFinding (mkFinding LevelError ''NOT_SORTED_BY_DATE''
             ''Dates are not sorted in ascending order'' None) st
      else st)"

definition buildResponse :: "string list \<Rightarrow> nat \<Rightarrow> LoopState \<Rightarrow> ValidationSuccess" where
  "buildResponse headers rowCount st =
     (let fs = lsFindings st; ds = lsDates st
      in \<lparr>summary = \<lparr>valid = (countLevel LevelError fs = 0), issues = countLevel LevelError fs,
                      warnings = countLevel LevelWarning fs, rows = rowCount\<rparr>,
          findings = fs,
          normalized = \<lparr>detectedHeaders = headers,
                        dateRange = (if 0 < length ds then Some (hd ds, last ds) else None)\<rparr>\<rparr>)"

text \<open>
  \<open>validateGA4CSV(content, options)\<close>. \<open>Inl\<close> is an exception that leaves the function;
  the exceptions of \<open>decodeContent\<close> are caught inside it.
\<close>

definition validateGA4CSV ::
  "(string \<Rightarrow> string option) \<Rightarrow> string \<Rightarrow> GA4ValidationOptions \<Rightarrow> jsError + ValidationSuccess" where
  "validateGA4CSV atobUtf8 c opts =
     (let maxR = maxRowsOrDefault opts in
      case decodeContent atobUtf8 c of
        Inl e \<Rightarrow>
          Inr (buildErrorResponse
                 [mkFinding LevelError ''INVALID_CONTENT_ENCODING''
                    (''Content must be prefixed with '' @ dq @ ''base64:'' @ dq @ '' or '' @ dq @ ''text:'' @ dq)
                    None] 0)
      | Inr csvText \<Rightarrow>
          (let rws = parseCSV csvText in
           if length rws = 0 then
             Inr (buildErrorResponse [mkFinding LevelError ''EMPTY_CSV'' ''CSV file is empty'' None] 0)
           else
             (let headers = hd rws;
                  missingHeaders = filter (\<lambda>h. h \<notin> set headers) requiredHeaders
              in if 0 < length missingHeaders then
                   Inr (buildErrorResponse
                          [mkFinding LevelError ''MISSING_REQUIRED_HEADERS''
                             (''Missing required headers: '' @ join '', '' missingHeaders)
                             (Some (PointerMissing missingHeaders))] 0)
                 else
                   (let hasPageviews = (''pageviews'' \<in> set headers);
                        fs0 = (if \<not> hasPageviews \<and> \<not> truthy (allowPageviewsMissing opts)
                               then [mkFinding LevelWarning ''MISSING_OPTIONAL_HEADER''
                                       (''Optional header '' @ dq @ ''pageviews'' @ dq @ '' is missing'') None]
                               else []);
                        idxs = (indexOf headers ''date'', indexOf headers ''sessions'',
                                indexOf headers ''users'', indexOf headers ''pageviews'');
                        dataRows = tl rws;
                        rowCount = length dataRows
                    in if int rowCount > maxR then
                         Inr (buildErrorResponse
                                (fs0 @ [mkFinding LevelError ''MAX_ROWS_EXCEEDED''
                                          (''CSV has '' @ natToString rowCount
                                             @ '' rows, exceeding maximum of '' @ intToString maxR)
                                          (Some (PointerMaxRows maxR rowCount))])
                                rowCount)
                       else
                         (case forEachRow opts idxs
                                 \<lparr>lsFindings = fs0, lsDates = [], lsSeenDates = []\<rparr> dataRows 0 of
                            Inl e \<Rightarrow> Inl e
                          | Inr st \<Rightarrow> Inr (buildResponse headers rowCount (sortedCheck opts st)))))))"

subsection \<open>Finding codes\<close>

text \<open>The findings of a run of the engine; a run that throws has none.\<close>

definition resultFindings :: "jsError + ValidationSuccess \<Rightarrow> ValidationFinding list" where
  "resultFindings res = (case res of Inl e \<Rightarrow> [] | Inr r \<Rightarrow> findings r)"

text \<open>
  The codes in the \<open>code:\<close> fields of validators/csv-ga4, without \<open>EMPTY_CSV\<close>,
  and the finding-code table as the specification lists it.
\<close>

definition engineFindingCodes :: "string list" where
  "engineFindingCodes =
     [''INVALID_CONTENT_ENCODING'', ''MISSING_REQUIRED_HEADERS'', ''INVALID_ROW_FORMAT'',
      ''INVALID_DATE_FORMAT'', ''DUPLICATE_DATE'', ''INVALID_SESSIONS_VALUE'',
      ''INVALID_USERS_VALUE'', ''INVALID_PAGEVIEWS_VALUE'', ''NOT_SORTED_BY_DATE'',
      ''MAX_ROWS_EXCEEDED'', ''MISSING_OPTIONAL_HEADER'']"

definition specFindingCodes :: "string list" where
  "specFindingCodes =
     [''INVALID_CONTENT_ENCODING'', ''EMPTY_CONTENT'', ''MISSING_REQUIRED_HEADERS'',
      ''INVALID_ROW_FORMAT'', ''INVALID_DATE_FORMAT'', ''DUPLICATE_DATE'',
      ''INVALID_SESSIONS_VALUE'', ''INVALID_USERS_VALUE'', ''INVALID_PAGEVIEWS_VALUE'',
      ''NOT_SORTED_BY_KEY'', ''MAX_ROWS_EXCEEDED'', ''MISSING_OPTIONAL_HEADER'']"

definition wellCoded :: "ValidationFinding \<Rightarrow> bool" where
  "wellCoded f = (code f \<in> set engineFindingCodes \<and>
                  (level f = LevelWarning) = (code f = ''MISSING_OPTIONAL_HEADER''))"

text \<open>Inputs used as examples: a line feed, and the options object \<open>{}\<close>.\<close>

definition LF :: string where
  "LF = [CHR 0x0A]"

definition noOptions :: GA4ValidationOptions where
  "noOptions = \<lparr>allowPageviewsMissing = None, requireSortedByDateAsc = None,
                 allowDuplicateDates = None, maxRows = None\<rparr>"






section \<open>Responses (types.ts) and performValidation (index.ts)\<close>

text \<open>
  \<open>ValidationResponse\<close> is \<open>ValidationSuccess | ValidationError\<close>, each with an
  optional \<open>idempotency\<close> marker: the body without the marker is the result payload.
\<close>

datatype responseBody =
    SuccessBody ValidationSuccess
  | ErrorBody string string "ValidationFinding list option"

record IdempotencyMarker =
  markerKey :: string
  replayed :: bool

record ValidationResponse =
  payload :: responseBody
  idempotency :: "IdempotencyMarker option"

fun bodyOk :: "responseBody \<Rightarrow> bool" where
  "bodyOk (SuccessBody r) = True"
| "bodyOk (ErrorBody c m fs) = False"

text \<open>
  The options of the request as the engine reads them. Without options the default
  parameter \<open>{}\<close> applies; on \<open>null\<close> the first property access is a TypeError; a
  value that is not an object has no properties. A flag is only used in a boolean
  position, so it is read by truthiness; \<open>maxRows\<close> is read at its declared type, a
  number (\<open>null\<close> and a missing key give the default through \<open>??\<close>).
\<close>

definition flagOption :: "(string \<times> json) list \<Rightarrow> string \<Rightarrow> bool option" where
  "flagOption kvs name = (case map_of kvs name of None \<Rightarrow> None | Some v \<Rightarrow> Some (\<not> jsFalsy v))"

definition ga4Options :: "json option \<Rightarrow> jsError + GA4ValidationOptions" where
  "ga4Options opts =
     (case opts of
        Some JNull \<Rightarrow> Inl TypeError
      | Some (JObj kvs) \<Rightarrow>
          Inr \<lparr>allowPageviewsMissing = flagOption kvs ''allowPageviewsMissing'',
               requireSortedByDateAsc = flagOption kvs ''requireSortedByDateAsc'',
               allowDuplicateDates = flagOption kvs ''allowDuplicateDates'',
               maxRows = (case map_of kvs ''maxRows'' of Some (JNum n) \<Rightarrow> Some n | _ \<Rightarrow> None)\<rparr>
      | _ \<Rightarrow> Inr noOptions)"

definition performValidation ::
  "(string \<Rightarrow> string option) \<Rightarrow> ValidationRequest \<Rightarrow> jsError + ValidationResponse" where
  "performValidation atobUtf8 req =
     (if reqType req = ''csv.timeseries.ga4.v1'' then
        (case ga4Options (reqOptions req) of
           Inl e \<Rightarrow> Inl e
         | Inr opts \<Rightarrow>
             (case validateGA4CSV atobUtf8 (reqContent req) opts of
                Inl e \<Rightarrow> Inl e
              | Inr result \<Rightarrow>
                  if \<not> valid (summary result) then
                    Inr \<lparr>payload = ErrorBody ''VALIDATION_FAILED'' ''CSV failed validation.''
                                     (Some (findings result)),
                         idempotency = None\<rparr>
                  else Inr \<lparr>payload = SuccessBody result, idempotency = None\<rparr>))
      else
        Inr \<lparr>payload = ErrorBody ''UNSUPPORTED_TYPE''
                         (''Validation type '' @ dq @ reqType req @ dq @ '' is not supported'') None,
             idempotency = None\<rparr>)"

section \<open>The idempotency store (middleware/idempotency)\<close>

text \<open>
  The KV namespace: keys to values, a value being a text or the JSON of an
  \<open>IdempotencyMetadata\<close>. The model has no expiry and reads see earlier writes: it
  covers calls that follow each other within the retention time of 24 hours.
\<close>

record IdempotencyMetadata =
  metaKey :: string
  metaFingerprint :: string
  metaResponse :: ValidationResponse
  metaTimestamp :: nat

datatype kvValue = KvText string | KvJson IdempotencyMetadata

type_synonym kvStore = "(string \<times> kvValue) list"

definition kvGet :: "kvStore \<Rightarrow> string \<Rightarrow> kvValue option" where
  "kvGet kv k = map_of kv k"

definition kvPut :: "kvStore \<Rightarrow> string \<Rightarrow> kvValue \<Rightarrow> kvStore" where
  "kvPut kv k v = (k, v) # filter (\<lambda>e. fst e \<noteq> k) kv"

definition kvList :: "kvStore \<Rightarrow> string \<Rightarrow> string list" where
  "kvList kv pre = filter (\<lambda>k. startsWith k pre) (map fst kv)"

text \<open>
  What \<open>checkIdempotency\<close> throws: the 409 \<open>Response\<close> (with the \<open>request_id\<close>
  when there is one), or an error of reading a value at the wrong type (the key spaces
  \<open>idem:\<close> and \<open>idem-fp:\<close> are disjoint, so the service never writes such a value).
\<close>

datatype thrown =
    ConflictResponse nat string string "string option"
  | KvTypeError

definition conflict409 :: "string option \<Rightarrow> thrown" where
  "conflict409 requestId =
     ConflictResponse 409 ''IDEMPOTENCY_KEY_REUSE_MISMATCH''
       ''Idempotency key was already used with different request parameters''
       (case requestId of None \<Rightarrow> None | Some r \<Rightarrow> (if r = [] then None else Some r))"

definition responseKey :: "string \<Rightarrow> string \<Rightarrow> string \<Rightarrow> string" where
  "responseKey apiKeyHash idempotencyKey fingerprint =
     ''idem:'' @ apiKeyHash @ '':'' @ idempotencyKey @ '':'' @ fingerprint"

definition keyPrefix :: "string \<Rightarrow> string \<Rightarrow> string" where
  "keyPrefix apiKeyHash idempotencyKey = ''idem:'' @ apiKeyHash @ '':'' @ idempotencyKey @ '':''"

definition fingerprintKey :: "string \<Rightarrow> string \<Rightarrow> string" where
  "fingerprintKey apiKeyHash idempotencyKey = ''idem-fp:'' @ apiKeyHash @ '':'' @ idempotencyKey"

definition markReplayed :: "string \<Rightarrow> ValidationResponse \<Rightarrow> ValidationResponse" where
  "markReplayed idempotencyKey response =
     response\<lparr>idempotency := Some \<lparr>markerKey = idempotencyKey, replayed = True\<rparr>\<rparr>"

text \<open>
  The first version of the middleware in the source: a conflict is a stored key with the
  prefix \<open>idem:{apiKeyHash}:{idempotencyKey}:\<close>. \<open>Inr None\<close> is the returned \<open>null\<close>.
\<close>

definition checkIdempotencyList ::
  "(string \<Rightarrow> string) \<Rightarrow> kvStore \<Rightarrow> string \<Rightarrow> string \<Rightarrow> string \<Rightarrow> string option
     \<Rightarrow> thrown + ValidationResponse option" where
  "checkIdempotencyList sha256 kv idempotencyKey apiKey fingerprint requestId =
     (let apiKeyHash = sha256 apiKey;
          kvKey = responseKey apiKeyHash idempotencyKey fingerprint
      in case kvGet kv kvKey of
           Some (KvJson metadata) \<Rightarrow> Inr (Some (markReplayed idempotencyKey (metaResponse metadata)))
         | Some (KvText t) \<Rightarrow> Inl KvTypeError
         | None \<Rightarrow>
             (if 0 < length (kvList kv (keyPrefix apiKeyHash idempotencyKey))
              then Inl (conflict409 requestId)
              else Inr None))"

definition storeIdempotentResponseList ::
  "(string \<Rightarrow> string) \<Rightarrow> nat \<Rightarrow> kvStore \<Rightarrow> string \<Rightarrow> string \<Rightarrow> string \<Rightarrow> ValidationResponse
     \<Rightarrow> kvStore" where
  "storeIdempotentResponseList sha256 now kv idempotencyKey apiKey fingerprint response =
     (let apiKeyHash = sha256 apiKey;
          kvKey = responseKey apiKeyHash idempotencyKey fingerprint;
          metadata = \<lparr>metaKey = idempotencyKey, metaFingerprint = fingerprint,
                      metaResponse = response, metaTimestamp = now\<rparr>
      in kvPut kv kvKey (KvJson metadata))"

text \<open>
  The second version: the fingerprint of a key is stored under
  \<open>idem-fp:{apiKeyHash}:{idempotencyKey}\<close>. A stored text is truthy when it is not empty.
\<close>

definition checkIdempotency ::
  "(string \<Rightarrow> string) \<Rightarrow> kvStore \<Rightarrow> string \<Rightarrow> string \<Rightarrow> string \<Rightarrow> string option
     \<Rightarrow> thrown + ValidationResponse option" where
  "checkIdempotency sha256 kv idempotencyKey apiKey fingerprint requestId =
     (let apiKeyHash = sha256 apiKey;
          fpKey = fingerprintKey apiKeyHash idempotencyKey
      in case kvGet kv fpKey of
           Some (KvJson m) \<Rightarrow> Inl KvTypeError
         | None \<Rightarrow> Inr None
         | Some (KvText storedFingerprint) \<Rightarrow>
             if storedFingerprint = [] then Inr None
             else if storedFingerprint \<noteq> fingerprint then Inl (conflict409 requestId)
             else
               (let kvKey = responseKey apiKeyHash idempotencyKey fingerprint
                in case kvGet kv kvKey of
                     Some (KvJson metadata) \<Rightarrow>
                       Inr (Some (markReplayed idempotencyKey (metaResponse metadata)))
                   | Some (KvText t) \<Rightarrow> Inl KvTypeError
                   | None \<Rightarrow> Inr None))"

definition storeIdempotentResponse ::
  "(string \<Rightarrow> string) \<Rightarrow> nat \<Rightarrow> kvStore \<Rightarrow> string \<Rightarrow> string \<Rightarrow> string \<Rightarrow> ValidationResponse
     \<Rightarrow> kvStore" where
  "storeIdempotentResponse sha256 now kv idempotencyKey apiKey fingerprint response =
     (let apiKeyHash = sha256 apiKey;
          kvKey = responseKey apiKeyHash idempotencyKey fingerprint;
          metadata = \<lparr>metaKey = idempotencyKey, metaFingerprint = fingerprint,
                      metaResponse = response, metaTimestamp = now\<rparr>;
          kv1 = kvPut kv kvKey (KvJson metadata);
          fpKey = fingerprintKey apiKeyHash idempotencyKey
      in kvPut kv1 fpKey (KvText fingerprint))"

section \<open>The orchestrator (index.ts, the route POST /api/validate)\<close>

text \<open>
  What the route changes and what a claim observes: the KV namespace, and how many
  times \<open>performValidation\<close> has run.
\<close>

record World =
  kv :: kvStore
  validationRuns :: nat

datatype outcome =
    Responded nat ValidationResponse
  | Rejected thrown
  | InternalError

definition statusOf :: "ValidationResponse \<Rightarrow> nat" where
  "statusOf r = (if bodyOk (payload r) then 200 else 422)"

text \<open>
  The branch without idempotency: validate and answer.
\<close>

definition validateDirectly ::
  "(string \<Rightarrow> string option) \<Rightarrow> World \<Rightarrow> ValidationRequest \<Rightarrow> outcome \<times> World" where
  "validateDirectly atobUtf8 w body =
     (case performValidation atobUtf8 body of
        Inl e \<Rightarrow> (InternalError, w\<lparr>validationRuns := validationRuns w + 1\<rparr>)
      | Inr result \<Rightarrow>
          (Responded (statusOf result) result, w\<lparr>validationRuns := validationRuns w + 1\<rparr>))"

text \<open>
  The route from the reading of the \<open>Idempotency-Key\<close> header on (the body has a type
  and a content), for a middleware \<open>check\<close>/\<open>store\<close>. A header is falsy when it is
  absent or empty. An exception that is not a \<open>Response\<close> reaches the outer \<open>catch\<close>:
  the answer is the 500 \<open>INTERNAL_ERROR\<close>.
\<close>

definition handleWith ::
  "((string \<Rightarrow> string) \<Rightarrow> kvStore \<Rightarrow> string \<Rightarrow> string \<Rightarrow> string \<Rightarrow> string option
      \<Rightarrow> thrown + ValidationResponse option)
   \<Rightarrow> ((string \<Rightarrow> string) \<Rightarrow> nat \<Rightarrow> kvStore \<Rightarrow> string \<Rightarrow> string \<Rightarrow> string \<Rightarrow> ValidationResponse
      \<Rightarrow> kvStore)
   \<Rightarrow> (string \<Rightarrow> string) \<Rightarrow> (string \<Rightarrow> string option) \<Rightarrow> nat \<Rightarrow> string
   \<Rightarrow> World \<Rightarrow> ValidationRequest \<Rightarrow> string option \<Rightarrow> string option \<Rightarrow> outcome \<times> World" where
  "handleWith check store sha256 atobUtf8 now requestId w body idempotencyKeyHeader apiKeyHeader =
     (case (idempotencyKeyHeader, map_option trim apiKeyHeader) of
        (Some idempotencyKey, Some apiKey) \<Rightarrow>
          if idempotencyKey = [] \<or> apiKey = [] then validateDirectly atobUtf8 w body
          else
            (let fingerprint = computeFingerprint sha256 body
             in case check sha256 (kv w) idempotencyKey apiKey fingerprint (Some requestId) of
                  Inl (ConflictResponse st c m r) \<Rightarrow> (Rejected (ConflictResponse st c m r), w)
                | Inl KvTypeError \<Rightarrow> (InternalError, w)
                | Inr (Some existing) \<Rightarrow> (Responded (statusOf existing) existing, w)
                | Inr None \<Rightarrow>
                    (case performValidation atobUtf8 body of
                       Inl e \<Rightarrow> (InternalError, w\<lparr>validationRuns := validationRuns w + 1\<rparr>)
                     | Inr result0 \<Rightarrow>
                         (let result = result0\<lparr>idempotency :=
                                          Some \<lparr>markerKey = idempotencyKey, replayed = False\<rparr>\<rparr>;
                              kv' = store sha256 now (kv w) idempotencyKey apiKey fingerprint result
                          in (Responded (statusOf result) result,
                              \<lparr>kv = kv', validationRuns = validationRuns w + 1\<rparr>))))
      | _ \<Rightarrow> validateDirectly atobUtf8 w body)"

text \<open>The route over the second version of the middleware, and over the first.\<close>

definition handle ::
  "(string \<Rightarrow> string) \<Rightarrow> (string \<Rightarrow> string option) \<Rightarrow> nat \<Rightarrow> string
   \<Rightarrow> World \<Rightarrow> ValidationRequest \<Rightarrow> string option \<Rightarrow> string option \<Rightarrow> outcome \<times> World" where
  "handle = handleWith checkIdempotency storeIdempotentResponse"

definition handleList ::
  "(string \<Rightarrow> string) \<Rightarrow> (string \<Rightarrow> string option) \<Rightarrow> nat \<Rightarrow> string
   \<Rightarrow> World \<Rightarrow> ValidationRequest \<Rightarrow> string option \<Rightarrow> string option \<Rightarrow> outcome \<times> World" where
  "handleList = handleWith checkIdempotencyList storeIdempotentResponseList"


fun outcomeReplayed :: "outcome \<Rightarrow> bool option" where
  "outcomeReplayed (Responded st r) = map_option replayed (idempotency r)"
| "outcomeReplayed (Rejected t) = None"
| "outcomeReplayed InternalError = None"

text \<open>
  Inputs used as examples: a request that validates, the same request with the month 13,
  the world before any call, and a stand-in for the digest: the letter \<open>h\<close> and the
  code units in hexadecimal (injective, never empty, no colon).
\<close>

definition exampleRequest :: ValidationRequest where
  "exampleRequest =
     \<lparr>reqType = ''csv.timeseries.ga4.v1'',
      reqContent = ''text:date,sessions,users'' @ LF @ ''2024-01-01,150,120'',
      reqOptions = None, reqContext = None\<rparr>"

definition badMonthRequest :: ValidationRequest where
  "badMonthRequest =
     exampleRequest\<lparr>reqContent := ''text:date,sessions,users'' @ LF @ ''2024-13-01,150,120''\<rparr>"

definition emptyWorld :: World where
  "emptyWorld = \<lparr>kv = [], validationRuns = 0\<rparr>"

definition exampleDigest :: "string \<Rightarrow> string" where
  "exampleDigest s =
     CHR ''h'' # concat (map (\<lambda>c. [hexDigit (of_char c div 16), hexDigit (of_char c)]) s)"

text \<open>
  Histories of calls of the middleware: \<open>Check\<close> and \<open>Store\<close> with the idempotency
  key, the API key and the fingerprint; the results of the checks, in order.
\<close>

datatype middlewareCall =
    Check string string string
  | Store string string string ValidationResponse

fun runHistory ::
  "((string \<Rightarrow> string) \<Rightarrow> kvStore \<Rightarrow> string \<Rightarrow> string \<Rightarrow> string \<Rightarrow> string option
      \<Rightarrow> thrown + ValidationResponse option)
   \<Rightarrow> ((string \<Rightarrow> string) \<Rightarrow> nat \<Rightarrow> kvStore \<Rightarrow> string \<Rightarrow> string \<Rightarrow> string \<Rightarrow> ValidationResponse
      \<Rightarrow> kvStore)
   \<Rightarrow> (string \<Rightarrow> string) \<Rightarrow> kvStore \<Rightarrow> middlewareCall list
   \<Rightarrow> (thrown + ValidationResponse option) list" where
  "runHistory check store sha256 kvs [] = []"
| "runHistory check store sha256 kvs (Check k a f # cs) =
     check sha256 kvs k a f None # runHistory check store sha256 kvs cs"
| "runHistory check store sha256 kvs (Store k a f r # cs) =
     runHistory check store sha256 (store sha256 0 kvs k a f r) cs"

text \<open>
  Sequences of calls of the route: each call with its body, its headers, the clock and its
  request id; the outcomes, in order.
\<close>

record RouteCall =
  callBody :: ValidationRequest
  callToken :: "string option"
  callApiKey :: "string option"
  callNow :: nat
  callRequestId :: string

fun runRoute ::
  "(nat \<Rightarrow> string \<Rightarrow> World \<Rightarrow> ValidationRequest \<Rightarrow> string option \<Rightarrow> string option \<Rightarrow> outcome \<times> World)
   \<Rightarrow> World \<Rightarrow> RouteCall list \<Rightarrow> outcome list" where
  "runRoute h w [] = []"
| "runRoute h w (c # cs) =
     (case h (callNow c) (callRequestId c) w (callBody c) (callToken c) (callApiKey c) of
        (out, w') \<Rightarrow> out # runRoute h w' cs)"

definition colonFree :: "string \<Rightarrow> bool" where
  "colonFree s = (CHR '':'' \<notin> set s)"

definition tokenColonFree :: "RouteCall \<Rightarrow> bool" where
  "tokenColonFree c = (case callToken c of None \<Rightarrow> True | Some t \<Rightarrow> colonFree t)"

text \<open>
  When the store of the first version (\<open>kv1\<close>) and the store of the second (\<open>kv2\<close>)
  hold the same records: the same responses, and for every caller and key either no
  fingerprint and no key under the prefix, or one fingerprint and its response as the
  only key under the prefix.
\<close>

definition storesAgree :: "kvStore \<Rightarrow> kvStore \<Rightarrow> bool" where
  "storesAgree kv1 kv2 =
     (\<forall>h t. colonFree h \<and> colonFree t \<longrightarrow>
        (\<forall>f. kvGet kv1 (responseKey h t f) = kvGet kv2 (responseKey h t f)) \<and>
        (case kvGet kv2 (fingerprintKey h t) of
           None \<Rightarrow> kvList kv1 (keyPrefix h t) = []
         | Some (KvJson m) \<Rightarrow> False
         | Some (KvText f) \<Rightarrow>
             f \<noteq> [] \<and> (\<exists>m. kvGet kv1 (responseKey h t f) = Some (KvJson m))
             \<and> (\<forall>k \<in> set (kvList kv1 (keyPrefix h t)). k = responseKey h t f)))"

text \<open>A stored response and a sequence of calls of the route, used as examples.\<close>

definition exampleResponse :: ValidationResponse where
  "exampleResponse = \<lparr>payload = ErrorBody ''UNSUPPORTED_TYPE'' ''unsupported'' None, idempotency = None\<rparr>"

definition exampleCalls :: "RouteCall list" where
  "exampleCalls =
     [\<lparr>callBody = exampleRequest, callToken = Some ''t1'', callApiKey = Some ''k'',
       callNow = 0, callRequestId = ''r1''\<rparr>,
      \<lparr>callBody = exampleRequest, callToken = Some ''t1'', callApiKey = Some ''k'',
       callNow = 5, callRequestId = ''r2''\<rparr>,
      \<lparr>callBody = badMonthRequest, callToken = Some ''t1'', callApiKey = Some ''k'',
       callNow = 9, callRequestId = ''r3''\<rparr>]"

section \<open>Properties of the canonical serialisation\<close>




section \<open>Fingerprint stability\<close>



section \<open>Findings of the engine\<close>

lemma splitAcc_nonempty: "splitAcc sep cur s \<noteq> []"
  by (induction s arbitrary: cur) auto

lemma parseCSV_nonempty: "parseCSV t \<noteq> []"
  by (simp add: parseCSV_def split_def splitAcc_nonempty Let_def)

lemma wellCoded_mk:
  "c \<in> set engineFindingCodes \<Longrightarrow> c \<noteq> ''MISSING_OPTIONAL_HEADER'' \<Longrightarrow> wellCoded (mkFinding LevelError c m p)"
  by (simp add: wellCoded_def mkFinding_def)

lemma wellCoded_push:
  "wellCoded f \<Longrightarrow> list_all wellCoded (lsFindings st) \<Longrightarrow> list_all wellCoded (lsFindings (pushFinding f st))"
  by (simp add: pushFinding_def)

lemma checkDate_wellCoded:
  assumes "checkDate opts i d st = Inr st'" and "list_all wellCoded (lsFindings st)"
  shows "list_all wellCoded (lsFindings st')"
proof -
  have a: "wellCoded (mkFinding LevelError ''INVALID_DATE_FORMAT'' m p)" for m p
    by (rule wellCoded_mk) (simp_all add: engineFindingCodes_def)
  have b: "wellCoded (mkFinding LevelError ''DUPLICATE_DATE'' m p)" for m p
    by (rule wellCoded_mk) (simp_all add: engineFindingCodes_def)
  show ?thesis
  proof (cases "isValidDate d")
    case (Inl e)
    then show ?thesis using assms(1) by (simp add: checkDate_def)
  next
    case (Inr ok)
    show ?thesis
    proof (cases ok)
      case True
      then show ?thesis
        using assms Inr
        by (simp add: checkDate_def pushFinding_def Let_def a b split: if_splits) (auto simp: a b)
    next
      case False
      then show ?thesis
        using assms Inr by (auto simp: checkDate_def pushFinding_def a)
    qed
  qed
qed

lemma checkNumeric_wellCoded:
  assumes "c \<in> set engineFindingCodes" and "c \<noteq> ''MISSING_OPTIONAL_HEADER''"
    and "list_all wellCoded (lsFindings st)"
  shows "list_all wellCoded (lsFindings (checkNumeric c fld i v st))"
  using assms wellCoded_mk [OF assms(1,2)]
  by (simp add: checkNumeric_def pushFinding_def)

lemma checkPageviews_wellCoded:
  assumes "list_all wellCoded (lsFindings st)"
  shows "list_all wellCoded (lsFindings (checkPageviews pv i row st))"
  unfolding checkPageviews_def
  using assms by (simp add: checkNumeric_wellCoded engineFindingCodes_def)

lemma rowBody_wellCoded:
  assumes "rowBody opts idxs st row idx = Inr st'" and "list_all wellCoded (lsFindings st)"
  shows "list_all wellCoded (lsFindings st')"
proof -
  obtain a b c d where idxs: "idxs = (a, b, c, d)" by (cases idxs) auto
  have r: "wellCoded (mkFinding LevelError ''INVALID_ROW_FORMAT'' m p)" for m p
    by (rule wellCoded_mk) (simp_all add: engineFindingCodes_def)
  show ?thesis
  proof (cases "length row < length requiredHeaders")
    case True
    then show ?thesis using assms by (auto simp: rowBody_def idxs Let_def pushFinding_def r)
  next
    case False
    then obtain st1 where s1: "checkDate opts (idx + 2) (rowAt row a) st = Inr st1"
      and s': "st' = checkPageviews d (idx + 2) row
                 (checkNumeric ''INVALID_USERS_VALUE'' ''users'' (idx + 2) (rowAt row c)
                   (checkNumeric ''INVALID_SESSIONS_VALUE'' ''sessions'' (idx + 2) (rowAt row b) st1))"
      using assms(1) by (auto simp: rowBody_def idxs Let_def split: sum.splits)
    have "list_all wellCoded (lsFindings st1)"
      using s1 assms(2) by (rule checkDate_wellCoded)
    then show ?thesis
      unfolding s'
      by (intro checkPageviews_wellCoded checkNumeric_wellCoded) (simp_all add: engineFindingCodes_def)
  qed
qed

lemma forEachRow_wellCoded:
  "forEachRow opts idxs st rs idx = Inr st' \<Longrightarrow> list_all wellCoded (lsFindings st)
   \<Longrightarrow> list_all wellCoded (lsFindings st')"
proof (induction rs arbitrary: st idx)
  case Nil
  then show ?case by simp
next
  case (Cons r rs)
  then show ?case
    by (auto split: sum.splits dest: rowBody_wellCoded)
qed

lemma sortedCheck_wellCoded:
  "list_all wellCoded (lsFindings st) \<Longrightarrow> list_all wellCoded (lsFindings (sortedCheck opts st))"
  by (simp add: sortedCheck_def pushFinding_def wellCoded_def mkFinding_def engineFindingCodes_def)

lemma validateGA4CSV_wellCoded:
  assumes "validateGA4CSV atobUtf8 c opts = Inr r"
  shows "list_all wellCoded (findings r)"
proof -
  have w: "wellCoded (mkFinding LevelWarning ''MISSING_OPTIONAL_HEADER'' m p)" for m p
    by (simp add: wellCoded_def mkFinding_def engineFindingCodes_def)
  have e: "wellCoded (mkFinding LevelError ''INVALID_CONTENT_ENCODING'' m p)"
      "wellCoded (mkFinding LevelError ''MISSING_REQUIRED_HEADERS'' m p)"
      "wellCoded (mkFinding LevelError ''MAX_ROWS_EXCEEDED'' m p)" for m p
    by (rule wellCoded_mk; simp add: engineFindingCodes_def)+
  show ?thesis
  proof (cases "decodeContent atobUtf8 c")
    case (Inl err)
    then show ?thesis
      using assms by (auto simp: validateGA4CSV_def Let_def buildErrorResponse_def e)
  next
    case (Inr csvText)
    define headers where "headers = hd (parseCSV csvText)"
    define fs0 where "fs0 = (if \<not> ''pageviews'' \<in> set headers \<and> \<not> truthy (allowPageviewsMissing opts)
                               then [mkFinding LevelWarning ''MISSING_OPTIONAL_HEADER''
                                       (''Optional header '' @ dq @ ''pageviews'' @ dq @ '' is missing'') None]
                               else [])"
    have fs0: "list_all wellCoded fs0" by (simp add: fs0_def w)
    show ?thesis
    proof (cases "0 < length (filter (\<lambda>h. h \<notin> set headers) requiredHeaders)")
      case True
      then show ?thesis
        using assms Inr parseCSV_nonempty [of csvText]
        by (auto simp: validateGA4CSV_def Let_def buildErrorResponse_def e headers_def)
    next
      case False
      note nomiss = False
      show ?thesis
      proof (cases "int (length (tl (parseCSV csvText))) > maxRowsOrDefault opts")
        case True
        then show ?thesis
          using assms Inr parseCSV_nonempty [of csvText] nomiss fs0
          by (auto simp: validateGA4CSV_def Let_def buildErrorResponse_def e headers_def fs0_def)
      next
        case False
        then obtain st where
          st: "forEachRow opts (indexOf headers ''date'', indexOf headers ''sessions'',
                                indexOf headers ''users'', indexOf headers ''pageviews'')
                 \<lparr>lsFindings = fs0, lsDates = [], lsSeenDates = []\<rparr> (tl (parseCSV csvText)) 0 = Inr st"
          and r: "r = buildResponse headers (length (tl (parseCSV csvText))) (sortedCheck opts st)"
          using assms Inr parseCSV_nonempty [of csvText] nomiss
          by (auto simp: validateGA4CSV_def Let_def headers_def fs0_def split: sum.splits)
        have "list_all wellCoded (lsFindings st)"
          using st fs0 by (auto dest: forEachRow_wellCoded)
        then show ?thesis
          by (simp add: r buildResponse_def Let_def sortedCheck_wellCoded)
      qed
    qed
  qed
qed

lemma validateGA4CSV_empty_text:
  "validateGA4CSV atobUtf8 ''text:'' opts =
     Inr (buildErrorResponse
            [mkFinding LevelError ''MISSING_REQUIRED_HEADERS''
               ''Missing required headers: date, sessions, users''
               (Some (PointerMissing [''date'', ''sessions'', ''users'']))] 0)"
  by (simp add: validateGA4CSV_def decodeContent_def substring_def parseCSV_def trim_def
        split_def requiredHeaders_def Let_def)

text \<open>
  C6. Every finding the engine emits carries a code of the table of its own code fields
  (\<open>engineFindingCodes\<close>), and its level is \<open>warning\<close> exactly when the code is
  \<open>MISSING_OPTIONAL_HEADER\<close>. That table differs from the specification's: the engine
  reports unsorted dates as \<open>NOT_SORTED_BY_DATE\<close>, which the specification's table
  (\<open>NOT_SORTED_BY_KEY\<close>) does not contain.
\<close>

theorem finding_codes_engine_table:
  "list_all (\<lambda>f. code f \<in> set engineFindingCodes
                  \<and> (level f = LevelWarning) = (code f = ''MISSING_OPTIONAL_HEADER''))
     (resultFindings (validateGA4CSV atobUtf8 c opts))"
proof (cases "validateGA4CSV atobUtf8 c opts")
  case (Inl e)
  then show ?thesis by (simp add: resultFindings_def)
next
  case (Inr r)
  then show ?thesis
    using validateGA4CSV_wellCoded [OF Inr]
    by (simp add: resultFindings_def wellCoded_def list_all_iff)
qed

theorem finding_codes_engine_table_witness:
  "list_all (\<lambda>f. code f \<in> set engineFindingCodes
                  \<and> (level f = LevelWarning) = (code f = ''MISSING_OPTIONAL_HEADER''))
     (resultFindings (validateGA4CSV Map.empty
        (''text:date,sessions,users'' @ LF @ ''2024-01-02,1,1'' @ LF @ ''2024-01-01,1,1'')
        (noOptions\<lparr>requireSortedByDateAsc := Some True\<rparr>)))
   \<and> length (resultFindings (validateGA4CSV Map.empty
        (''text:date,sessions,users'' @ LF @ ''2024-01-02,1,1'' @ LF @ ''2024-01-01,1,1'')
        (noOptions\<lparr>requireSortedByDateAsc := Some True\<rparr>))) = 2"
proof
  show "list_all (\<lambda>f. code f \<in> set engineFindingCodes
                  \<and> (level f = LevelWarning) = (code f = ''MISSING_OPTIONAL_HEADER''))
     (resultFindings (validateGA4CSV Map.empty
        (''text:date,sessions,users'' @ LF @ ''2024-01-02,1,1'' @ LF @ ''2024-01-01,1,1'')
        (noOptions\<lparr>requireSortedByDateAsc := Some True\<rparr>)))"
    by (rule finding_codes_engine_table)
  show "length (resultFindings (validateGA4CSV Map.empty
        (''text:date,sessions,users'' @ LF @ ''2024-01-02,1,1'' @ LF @ ''2024-01-01,1,1'')
        (noOptions\<lparr>requireSortedByDateAsc := Some True\<rparr>))) = 2"
    by code_simp
qed

theorem finding_codes_spec_table_counterexample:
  "map_sum id (map code \<circ> findings)
     (validateGA4CSV Map.empty
        (''text:date,sessions,users'' @ LF @ ''2024-01-02,1,1'' @ LF @ ''2024-01-01,1,1'')
        (noOptions\<lparr>requireSortedByDateAsc := Some True\<rparr>))
     = Inr [''MISSING_OPTIONAL_HEADER'', ''NOT_SORTED_BY_DATE'']
   \<and> ''NOT_SORTED_BY_DATE'' \<notin> set specFindingCodes"
  by code_simp

text \<open>
  C10. \<open>parseCSV\<close> returns at least one row for every text, so no run of the engine
  emits \<open>EMPTY_CSV\<close>; the content \<open>text:\<close> (an empty payload) is reported as
  \<open>MISSING_REQUIRED_HEADERS\<close> with a row count of 0.
\<close>

theorem parseCSV_never_empty:
  "parseCSV csvText \<noteq> []
   \<and> list_all (\<lambda>f. code f \<noteq> ''EMPTY_CSV'') (resultFindings (validateGA4CSV atobUtf8 c opts))
   \<and> map_sum id (\<lambda>r. (map code (findings r), rows (summary r)))
         (validateGA4CSV atobUtf8 ''text:'' opts) = Inr ([''MISSING_REQUIRED_HEADERS''], 0)"
proof -
  have "list_all (\<lambda>f. code f \<noteq> ''EMPTY_CSV'') (resultFindings (validateGA4CSV atobUtf8 c opts))"
  proof (cases "validateGA4CSV atobUtf8 c opts")
    case (Inl e)
    then show ?thesis by (simp add: resultFindings_def)
  next
    case (Inr r)
    have "wellCoded f \<Longrightarrow> code f \<noteq> ''EMPTY_CSV''" for f
      by (auto simp: wellCoded_def engineFindingCodes_def)
    then show ?thesis
      using validateGA4CSV_wellCoded [OF Inr] Inr
      by (simp add: resultFindings_def list_all_iff)
  qed
  then show ?thesis
    by (simp add: parseCSV_nonempty validateGA4CSV_empty_text buildErrorResponse_def mkFinding_def)
qed

section \<open>Exceptions of the engine\<close>

text \<open>
  C3. The engine is claimed never to throw on malformed input data. On a row whose date
  has the shape YYYY-MM-DD and the month 13, \<open>isValidDate\<close> calls \<open>toISOString\<close> on an
  Invalid Date: the RangeError leaves \<open>validateGA4CSV\<close>, and no result is returned.
\<close>

theorem validateGA4CSV_throws_on_month_13:
  "validateGA4CSV Map.empty (''text:date,sessions,users'' @ LF @ ''2024-13-01,1,1'') noOptions
     = Inl RangeError"
  by code_simp

section \<open>The non-negative integer check\<close>

lemma below_ten: "(k::nat) < 10 \<Longrightarrow> k \<in> {0, 1, 2, 3, 4, 5, 6, 7, 8, 9}"
  by simp arith

lemma digitVal_digitChar: "n < 10 \<Longrightarrow> digitVal (digitChar n) = n"
proof -
  assume "n < 10"
  then have "n \<in> {0, 1, 2, 3, 4, 5, 6, 7, 8, 9}" by (rule below_ten)
  then show ?thesis by (auto simp: digitChar_def digitVal_def)
qed























section \<open>The row-count ceiling\<close>




section \<open>Idempotent replay and conflict detection\<close>

lemma map_of_filter_key:
  "map_of (filter (\<lambda>e. fst e \<noteq> k) xs) k' = (if k' = k then None else map_of xs k')"
  by (induction xs) auto

lemma kvGet_kvPut: "kvGet (kvPut kvs k v) k' = (if k' = k then Some v else kvGet kvs k')"
  by (simp add: kvGet_def kvPut_def map_of_filter_key)

lemma responseKey_neq_fingerprintKey: "responseKey h t f \<noteq> fingerprintKey h' t'"
  by (simp add: responseKey_def fingerprintKey_def)






lemma computeFingerprint_nonempty: "(\<And>x. sha x \<noteq> []) \<Longrightarrow> computeFingerprint sha R \<noteq> []"
  by (simp add: computeFingerprint_def Let_def)










section \<open>The two versions of the middleware\<close>

lemma startsWith_iff: "startsWith s p = (\<exists>r. s = p @ r)"
  by (induction s p rule: startsWith.induct) auto

lemma colon_split:
  "colonFree a \<Longrightarrow> colonFree a' \<Longrightarrow> a @ CHR '':'' # r = a' @ CHR '':'' # r' \<Longrightarrow> a = a' \<and> r = r'"
proof (induction a arbitrary: a')
  case Nil
  then show ?case by (cases a') (auto simp: colonFree_def)
next
  case (Cons c a)
  then show ?case by (cases a') (auto simp: colonFree_def)
qed

lemma responseKey_prefix: "responseKey h t f = keyPrefix h t @ f"
  by (simp add: responseKey_def keyPrefix_def)

lemma prefix_same_key:
  assumes "colonFree h" "colonFree h'" "colonFree t" "colonFree t'"
    and "startsWith (responseKey h t f) (keyPrefix h' t')"
  shows "h = h' \<and> t = t'"
proof -
  obtain r where "responseKey h t f = keyPrefix h' t' @ r"
    using assms(5) by (auto simp: startsWith_iff)
  then have e: "h @ CHR '':'' # (t @ CHR '':'' # f) = h' @ CHR '':'' # (t' @ CHR '':'' # r)"
    by (simp add: responseKey_def keyPrefix_def)
  from colon_split [OF assms(1,2) e] have "h = h'" and "t @ CHR '':'' # f = t' @ CHR '':'' # r"
    by simp_all
  with colon_split [OF assms(3,4)] show ?thesis by blast
qed

lemma fingerprintKey_inj:
  assumes "colonFree h" "colonFree h'" and "fingerprintKey h t = fingerprintKey h' t'"
  shows "h = h' \<and> t = t'"
proof -
  have "h @ CHR '':'' # t = h' @ CHR '':'' # t'"
    using assms(3) by (simp add: fingerprintKey_def)
  with colon_split [OF assms(1,2)] show ?thesis by blast
qed

lemma kvGet_Some_iff: "(kvGet kvs k \<noteq> None) = (k \<in> fst ` set kvs)"
  by (simp add: kvGet_def map_of_eq_None_iff)

lemma set_kvList: "set (kvList kvs p) = {k \<in> fst ` set kvs. startsWith k p}"
  by (auto simp: kvList_def)

lemma keys_kvPut: "fst ` set (kvPut kvs k v) = insert k (fst ` set kvs)"
  by (auto simp: kvPut_def image_iff)

lemma kvList_empty_iff: "(kvList kvs p = []) = (\<forall>k. startsWith k p \<longrightarrow> kvGet kvs k = None)"
proof -
  have "(kvList kvs p = []) = (set (kvList kvs p) = {})" by simp
  also have "\<dots> = (\<forall>k. startsWith k p \<longrightarrow> k \<notin> fst ` set kvs)"
    unfolding set_kvList by blast
  also have "\<dots> = (\<forall>k. startsWith k p \<longrightarrow> kvGet kvs k = None)"
    using kvGet_Some_iff [of kvs] by blast
  finally show ?thesis .
qed

lemma startsWith_responseKey: "startsWith (responseKey h t f) (keyPrefix h t)"
  by (simp add: startsWith_iff responseKey_prefix)

lemma storesAgree_empty: "storesAgree [] []"
  by (simp add: storesAgree_def kvGet_def kvList_def)

lemma storesAgree_check:
  assumes agree: "storesAgree kv1 kv2" and h: "colonFree (sha ak)" and t: "colonFree t"
  shows "checkIdempotencyList sha kv1 t ak f rid = checkIdempotency sha kv2 t ak f rid"
proof -
  let ?h = "sha ak"
  from agree h t have same: "\<And>g. kvGet kv1 (responseKey ?h t g) = kvGet kv2 (responseKey ?h t g)"
    and fp: "case kvGet kv2 (fingerprintKey ?h t) of
           None \<Rightarrow> kvList kv1 (keyPrefix ?h t) = []
         | Some (KvJson m) \<Rightarrow> False
         | Some (KvText g) \<Rightarrow>
             g \<noteq> [] \<and> (\<exists>m. kvGet kv1 (responseKey ?h t g) = Some (KvJson m))
             \<and> (\<forall>k \<in> set (kvList kv1 (keyPrefix ?h t)). k = responseKey ?h t g)"
    unfolding storesAgree_def by blast+
  show ?thesis
  proof (cases "kvGet kv2 (fingerprintKey ?h t)")
    case None
    with fp have "kvList kv1 (keyPrefix ?h t) = []" by simp
    moreover from this have "kvGet kv1 (responseKey ?h t f) = None"
      using startsWith_responseKey [of ?h t f] by (simp add: kvList_empty_iff)
    ultimately show ?thesis
      using None by (simp add: checkIdempotencyList_def checkIdempotency_def)
  next
    case (Some v)
    show ?thesis
    proof (cases v)
      case (KvJson m)
      with fp Some show ?thesis by simp
    next
      case (KvText g)
      with fp Some have g: "g \<noteq> []"
        and ex: "\<exists>m. kvGet kv1 (responseKey ?h t g) = Some (KvJson m)"
        and only: "\<forall>k \<in> set (kvList kv1 (keyPrefix ?h t)). k = responseKey ?h t g"
        by simp_all
      from ex obtain m where m: "kvGet kv1 (responseKey ?h t g) = Some (KvJson m)" by blast
      have inlist: "responseKey ?h t g \<in> set (kvList kv1 (keyPrefix ?h t))"
        using m kvGet_Some_iff [of kv1 "responseKey ?h t g"] startsWith_responseKey [of ?h t g]
        by (simp add: set_kvList)
      show ?thesis
      proof (cases "g = f")
        case True
        then show ?thesis
          using Some KvText g m same [of f]
          by (simp add: checkIdempotencyList_def checkIdempotency_def)
      next
        case False
        have "kvGet kv1 (responseKey ?h t f) = None"
        proof (rule ccontr)
          assume "kvGet kv1 (responseKey ?h t f) \<noteq> None"
          then have "responseKey ?h t f \<in> set (kvList kv1 (keyPrefix ?h t))"
            using kvGet_Some_iff [of kv1 "responseKey ?h t f"] startsWith_responseKey [of ?h t f]
            by (simp add: set_kvList)
          with only have "responseKey ?h t f = responseKey ?h t g" by blast
          then show False using False by (simp add: responseKey_def)
        qed
        moreover have "kvList kv1 (keyPrefix ?h t) \<noteq> []"
          using inlist by auto
        ultimately show ?thesis
          using Some KvText g False
          by (simp add: checkIdempotencyList_def checkIdempotency_def)
      qed
    qed
  qed
qed

lemma storesAgree_miss:
  assumes agree: "storesAgree kv1 kv2" and h: "colonFree (sha ak)" and t: "colonFree t"
    and miss: "checkIdempotency sha kv2 t ak f rid = Inr None"
  shows "kvGet kv2 (fingerprintKey (sha ak) t) = None \<and> kvList kv1 (keyPrefix (sha ak) t) = []"
proof -
  let ?h = "sha ak"
  from agree h t have same: "\<And>g. kvGet kv1 (responseKey ?h t g) = kvGet kv2 (responseKey ?h t g)"
    and fp: "case kvGet kv2 (fingerprintKey ?h t) of
           None \<Rightarrow> kvList kv1 (keyPrefix ?h t) = []
         | Some (KvJson m) \<Rightarrow> False
         | Some (KvText g) \<Rightarrow>
             g \<noteq> [] \<and> (\<exists>m. kvGet kv1 (responseKey ?h t g) = Some (KvJson m))
             \<and> (\<forall>k \<in> set (kvList kv1 (keyPrefix ?h t)). k = responseKey ?h t g)"
    unfolding storesAgree_def by blast+
  show ?thesis
  proof (cases "kvGet kv2 (fingerprintKey ?h t)")
    case None
    with fp show ?thesis by simp
  next
    case (Some v)
    show ?thesis
    proof (cases v)
      case (KvJson m)
      with fp Some show ?thesis by simp
    next
      case (KvText g)
      with fp Some have g: "g \<noteq> []"
        and ex: "\<exists>m. kvGet kv1 (responseKey ?h t g) = Some (KvJson m)"
        by simp_all
      from ex obtain m where m: "kvGet kv2 (responseKey ?h t g) = Some (KvJson m)"
        using same by auto
      have "checkIdempotency sha kv2 t ak f rid \<noteq> Inr None"
        using Some KvText g m by (cases "g = f") (simp_all add: checkIdempotency_def)
      with miss show ?thesis by simp
    qed
  qed
qed

lemma storesAgree_store:
  assumes agree: "storesAgree kv1 kv2" and h: "colonFree (sha ak)" and t: "colonFree t"
    and f: "f \<noteq> []"
    and miss: "checkIdempotency sha kv2 t ak f rid = Inr None"
  shows "storesAgree (storeIdempotentResponseList sha now kv1 t ak f r)
                     (storeIdempotentResponse sha now kv2 t ak f r)"
proof -
  let ?h = "sha ak"
  let ?K = "responseKey ?h t f"
  let ?FK = "fingerprintKey ?h t"
  let ?m = "KvJson \<lparr>metaKey = t, metaFingerprint = f, metaResponse = r, metaTimestamp = now\<rparr>"
  let ?kv1 = "kvPut kv1 ?K ?m"
  let ?kv2 = "kvPut (kvPut kv2 ?K ?m) ?FK (KvText f)"
  have s1: "storeIdempotentResponseList sha now kv1 t ak f r = ?kv1"
    by (simp add: storeIdempotentResponseList_def Let_def)
  have s2: "storeIdempotentResponse sha now kv2 t ak f r = ?kv2"
    by (simp add: storeIdempotentResponse_def Let_def)
  from storesAgree_miss [OF agree h t miss]
  have nofp: "kvGet kv2 ?FK = None" and nokeys: "kvList kv1 (keyPrefix ?h t) = []"
    by simp_all
  have "storesAgree ?kv1 ?kv2"
    unfolding storesAgree_def
  proof (intro allI impI conjI)
    fix h' t' g
    assume cf: "colonFree h' \<and> colonFree t'"
    with agree have "kvGet kv1 (responseKey h' t' g) = kvGet kv2 (responseKey h' t' g)"
      unfolding storesAgree_def by blast
    then show "kvGet ?kv1 (responseKey h' t' g) = kvGet ?kv2 (responseKey h' t' g)"
      by (simp add: kvGet_kvPut responseKey_neq_fingerprintKey)
  next
    fix h' t'
    assume cf: "colonFree h' \<and> colonFree t'"
    from agree cf have old: "case kvGet kv2 (fingerprintKey h' t') of
           None \<Rightarrow> kvList kv1 (keyPrefix h' t') = []
         | Some (KvJson m) \<Rightarrow> False
         | Some (KvText g) \<Rightarrow>
             g \<noteq> [] \<and> (\<exists>m. kvGet kv1 (responseKey h' t' g) = Some (KvJson m))
             \<and> (\<forall>k \<in> set (kvList kv1 (keyPrefix h' t')). k = responseKey h' t' g)"
      unfolding storesAgree_def by blast
    show "case kvGet ?kv2 (fingerprintKey h' t') of
           None \<Rightarrow> kvList ?kv1 (keyPrefix h' t') = []
         | Some (KvJson m) \<Rightarrow> False
         | Some (KvText g) \<Rightarrow>
             g \<noteq> [] \<and> (\<exists>m. kvGet ?kv1 (responseKey h' t' g) = Some (KvJson m))
             \<and> (\<forall>k \<in> set (kvList ?kv1 (keyPrefix h' t')). k = responseKey h' t' g)"
    proof (cases "h' = ?h \<and> t' = t")
      case True
      have "\<forall>k \<in> set (kvList ?kv1 (keyPrefix ?h t)). k = ?K"
      proof
        fix k assume "k \<in> set (kvList ?kv1 (keyPrefix ?h t))"
        then have k: "k = ?K \<or> k \<in> fst ` set kv1" and p: "startsWith k (keyPrefix ?h t)"
          by (auto simp: set_kvList keys_kvPut)
        from nokeys p have "kvGet kv1 k = None" by (simp add: kvList_empty_iff)
        then have "k \<notin> fst ` set kv1" using kvGet_Some_iff [of kv1 k] by simp
        with k show "k = ?K" by simp
      qed
      then show ?thesis
        using True f by (simp add: kvGet_kvPut)
    next
      case False
      have fk: "fingerprintKey h' t' \<noteq> ?FK"
        using fingerprintKey_inj [of h' ?h t' t] cf h False by blast
      have nopre: "\<not> startsWith ?K (keyPrefix h' t')"
        using prefix_same_key [of ?h h' t t' f] cf h t False by blast
      have g2: "kvGet ?kv2 (fingerprintKey h' t') = kvGet kv2 (fingerprintKey h' t')"
        using fk responseKey_neq_fingerprintKey [of ?h t f h' t']
        by (auto simp: kvGet_kvPut)
      have l1: "set (kvList ?kv1 (keyPrefix h' t')) = set (kvList kv1 (keyPrefix h' t'))"
        using nopre by (auto simp: set_kvList keys_kvPut)
      have g1: "kvGet ?kv1 (responseKey h' t' g) = kvGet kv1 (responseKey h' t' g)" for g
        using nopre startsWith_responseKey [of h' t' g] by (auto simp: kvGet_kvPut)
      have e: "(kvList ?kv1 (keyPrefix h' t') = []) = (kvList kv1 (keyPrefix h' t') = [])"
        using l1 by (metis set_empty)
      show ?thesis
        using old unfolding g2 l1 g1 e .
    qed
  qed
  then show ?thesis by (simp only: s1 s2)
qed

lemma validateDirectly_step:
  assumes "validationRuns (w1::World) = validationRuns (w2::World)"
  shows "fst (validateDirectly decoder w1 body) = fst (validateDirectly decoder w2 body)
       \<and> kv (snd (validateDirectly decoder w1 body)) = kv w1
       \<and> kv (snd (validateDirectly decoder w2 body)) = kv w2
       \<and> validationRuns (snd (validateDirectly decoder w1 body))
           = validationRuns (snd (validateDirectly decoder w2 body))"
  using assms by (cases "performValidation decoder body") (simp_all add: validateDirectly_def)

lemma handle_step:
  assumes sha: "\<And>x. sha x \<noteq> [] \<and> colonFree (sha x)"
    and agree: "storesAgree (kv (w1::World)) (kv (w2::World))"
    and runs: "validationRuns w1 = validationRuns w2"
    and tok: "case token of None \<Rightarrow> True | Some t \<Rightarrow> colonFree t"
  shows "fst (handleList sha decoder now rid w1 body token apiKey)
           = fst (handle sha decoder now rid w2 body token apiKey)
       \<and> storesAgree (kv (snd (handleList sha decoder now rid w1 body token apiKey)))
                      (kv (snd (handle sha decoder now rid w2 body token apiKey)))
       \<and> validationRuns (snd (handleList sha decoder now rid w1 body token apiKey))
           = validationRuns (snd (handle sha decoder now rid w2 body token apiKey))"
proof -
  note direct = validateDirectly_step [OF runs, of decoder body]
  show ?thesis
  proof (cases token)
    case None
    then show ?thesis
      using direct agree by (simp add: handle_def handleList_def handleWith_def)
  next
    case (Some t)
    note token = Some
    show ?thesis
    proof (cases apiKey)
      case None
      then show ?thesis
        using direct agree token by (simp add: handle_def handleList_def handleWith_def)
    next
      case (Some rawKey)
      define ak where "ak = trim rawKey"
      note Some = Some [folded ak_def] ak_def
      show ?thesis
      proof (cases "t = [] \<or> ak = []")
        case True
        then show ?thesis
          using direct agree token Some by (auto simp: handle_def handleList_def handleWith_def)
      next
        case False
        let ?f = "computeFingerprint sha body"
        have cft: "colonFree t" using tok token by simp
        have cfh: "colonFree (sha ak)" using sha by simp
        have fne: "?f \<noteq> []" using sha by (simp add: computeFingerprint_nonempty)
        have same: "checkIdempotencyList sha (kv w1) t ak ?f (Some rid)
                      = checkIdempotency sha (kv w2) t ak ?f (Some rid)"
          using agree cfh cft by (rule storesAgree_check)
        note defs = handle_def handleList_def handleWith_def Let_def
        show ?thesis
        proof (cases "checkIdempotency sha (kv w2) t ak ?f (Some rid)")
          case (Inl th)
          then show ?thesis
            using False token Some same agree runs by (cases th) (simp_all add: defs)
        next
          case (Inr found)
          show ?thesis
          proof (cases found)
            case (Some existing)
            then show ?thesis
              using False token \<open>apiKey = Some rawKey\<close> ak_def same Inr agree runs
              by (simp add: defs)
          next
            case None
            with Inr have miss: "checkIdempotency sha (kv w2) t ak ?f (Some rid) = Inr None"
              by simp
            show ?thesis
            proof (cases "performValidation decoder body")
              case (Inl e)
              then show ?thesis
                using False token Some same miss agree runs by (simp add: defs)
            next
              case (Inr result0)
              then show ?thesis
                using False token Some same miss runs
                  storesAgree_store [OF agree cfh cft fne miss]
                by (simp add: defs)
            qed
          qed
        qed
      qed
    qed
  qed
qed

lemma runRoute_agree:
  assumes sha: "\<And>x. sha x \<noteq> [] \<and> colonFree (sha x)"
  shows "list_all tokenColonFree calls \<Longrightarrow> storesAgree (kv (w1::World)) (kv (w2::World))
     \<Longrightarrow> validationRuns w1 = validationRuns w2
     \<Longrightarrow> runRoute (handleList sha decoder) w1 calls = runRoute (handle sha decoder) w2 calls"
proof (induction calls arbitrary: w1 w2)
  case Nil
  then show ?case by simp
next
  case (Cons c cs)
  have tok: "case callToken c of None \<Rightarrow> True | Some t \<Rightarrow> colonFree t"
    using Cons.prems(1) by (simp add: tokenColonFree_def)
  note step = handle_step [where sha = sha and decoder = decoder and now = "callNow c"
      and rid = "callRequestId c" and body = "callBody c" and apiKey = "callApiKey c",
      OF sha Cons.prems(2,3) tok]
  obtain o1 v1 where r1: "handleList sha decoder (callNow c) (callRequestId c) w1 (callBody c)
                            (callToken c) (callApiKey c) = (o1, v1)"
    by (cases "handleList sha decoder (callNow c) (callRequestId c) w1 (callBody c) (callToken c) (callApiKey c)") auto
  obtain o2 v2 where r2: "handle sha decoder (callNow c) (callRequestId c) w2 (callBody c)
                            (callToken c) (callApiKey c) = (o2, v2)"
    by (cases "handle sha decoder (callNow c) (callRequestId c) w2 (callBody c) (callToken c) (callApiKey c)") auto
  from step r1 r2 have "o1 = o2" and "storesAgree (kv v1) (kv v2)"
    and "validationRuns v1 = validationRuns v2"
    by simp_all
  moreover have "list_all tokenColonFree cs" using Cons.prems(1) by simp
  ultimately have "runRoute (handleList sha decoder) v1 cs = runRoute (handle sha decoder) v2 cs"
    using Cons.IH by blast
  then show ?case
    using r1 r2 \<open>o1 = o2\<close> by simp
qed

lemma hexDigit_not_colon: "hexDigit n \<noteq> CHR '':''"
proof -
  have "n mod 16 < 16" by simp
  then have "n mod 16 \<in> {0, 1, 2, 3, 4, 5, 6, 7, 8, 9, 10, 11, 12, 13, 14, 15}"
    by simp arith
  then show ?thesis
    unfolding hexDigit_def by auto
qed

lemma exampleDigest_colonFree: "exampleDigest x \<noteq> [] \<and> colonFree (exampleDigest x)"
  using hexDigit_not_colon by (auto simp: exampleDigest_def colonFree_def) metis+

text \<open>
  C9. Behind the route the two versions of the middleware decide alike: for a digest
  whose values are never empty and contain no colon (as hexadecimal digests are), and
  calls whose idempotency keys contain no colon, the route over the list-prefix version
  and the route over the fingerprint-record version give the same outcomes, call by
  call, from the empty store.
\<close>

theorem middleware_versions_agree:
  assumes "\<And>x. sha x \<noteq> [] \<and> colonFree (sha x)"
    and "list_all tokenColonFree calls"
  shows "runRoute (handleList sha decoder) emptyWorld calls
           = runRoute (handle sha decoder) emptyWorld calls"
proof -
  have "storesAgree (kv emptyWorld) (kv emptyWorld)"
    by (simp add: emptyWorld_def storesAgree_empty)
  with assms show ?thesis
    by (intro runRoute_agree) simp_all
qed

theorem middleware_versions_agree_witness:
  "list_all tokenColonFree exampleCalls
   \<and> runRoute (handleList exampleDigest Map.empty) emptyWorld exampleCalls
       = runRoute (handle exampleDigest Map.empty) emptyWorld exampleCalls
   \<and> map outcomeReplayed (runRoute (handle exampleDigest Map.empty) emptyWorld exampleCalls)
       = [Some False, Some True, None]"
proof -
  have t: "list_all tokenColonFree exampleCalls" by code_simp
  have r: "map outcomeReplayed (runRoute (handle exampleDigest Map.empty) emptyWorld exampleCalls)
       = [Some False, Some True, None]"
    by code_simp
  show ?thesis
    using middleware_versions_agree [where sha = exampleDigest and decoder = Map.empty,
            OF exampleDigest_colonFree t] t r
    by simp
qed

text \<open>
  For histories of calls of the middleware itself the two versions differ. After a
  response stored under the key \<open>a:b\<close>, the key \<open>a\<close> is a conflict for the first
  version (the stored key has the prefix of \<open>a\<close>) and a miss for the second. After two
  responses stored under one key with two fingerprints, the first fingerprint is a hit
  for the first version and a conflict for the second.
\<close>

theorem middleware_versions_agree_counterexample:
  "runHistory checkIdempotencyList storeIdempotentResponseList exampleDigest []
     [Store ''a:b'' ''k'' ''f'' exampleResponse, Check ''a'' ''k'' ''f'']
     = [Inl (conflict409 None)]
   \<and> runHistory checkIdempotency storeIdempotentResponse exampleDigest []
     [Store ''a:b'' ''k'' ''f'' exampleResponse, Check ''a'' ''k'' ''f'']
     = [Inr None]
   \<and> runHistory checkIdempotencyList storeIdempotentResponseList exampleDigest []
     [Store ''a'' ''k'' ''f1'' exampleResponse, Store ''a'' ''k'' ''f2'' exampleResponse,
      Check ''a'' ''k'' ''f1'']
     = [Inr (Some (markReplayed ''a'' exampleResponse))]
   \<and> runHistory checkIdempotency storeIdempotentResponse exampleDigest []
     [Store ''a'' ''k'' ''f1'' exampleResponse, Store ''a'' ''k'' ''f2'' exampleResponse,
      Check ''a'' ''k'' ''f1'']
     = [Inl (conflict409 None)]"
  by code_simp

section \<open>Determinism of the engine\<close>



end
